theory Spec2Isabelle
  imports Main "HOL-Library.Multiset"
begin

section \<open>Data model (models/transfer.go)\<close>

text \<open>
  A point in time is the number of nanoseconds since the Unix epoch; a duration is a
  number of nanoseconds, as in Go's \<open>time.Duration\<close>.
\<close>

type_synonym Time = int

definition Hour :: int where
  "Hour = 3600 * 1000000000"

record Transfer =
  ID :: string
  SenderID :: string
  SenderEmail :: string
  ReceiverEmail :: string
  ReceiverName :: string
  Points :: int
  Status :: string
  Token :: string
  ExpiresAt :: Time
  CreatedAt :: Time
  UpdatedAt :: Time

text \<open>
  The fields of \<open>TransferRequest\<close> and \<open>User\<close> carry a prefix: a record field is a
  constant of the theory, and \<open>Points\<close>, \<open>ReceiverEmail\<close>, \<open>ID\<close> are fields of
  \<open>Transfer\<close> already.
\<close>

record TransferRequest =
  reqReceiverEmail :: string
  reqReceiverName :: string
  reqPoints :: int

record User =
  uID :: string
  uEmail :: string
  uName :: string
  uPoints :: int

text \<open>
  Go's \<open>int\<close> is a 64-bit two's complement integer on the platforms the service is
  built for; the one arithmetic operation of the service, the subtraction in
  \<open>CompleteTransfer\<close>, wraps around.
\<close>

definition wrap64 :: "int \<Rightarrow> int" where
  "wrap64 x = (x + 2 ^ 63) mod 2 ^ 64 - 2 ^ 63"

section \<open>Errors, collaborators and the state of the world\<close>

text \<open>
  \<open>errors_New m\<close> is the value of Go's \<open>errors.New(m)\<close>. The other three stand for the
  errors the libraries hand back: GORM's record-not-found, any other database error,
  and a failure of the HTTP transport.
\<close>

datatype error =
    errors_New string
  | ErrRecordNotFound
  | ErrDatabase
  | ErrTransport

text \<open>Every call the service makes to a collaborator is logged, in order.\<close>

datatype event =
    FindByIDCall string
  | FindBySenderIDCall string
  | CreateCall Transfer
  | UpdateCall Transfer
  | GetUserCall string
  | PutPointsCall string int
  | SendEmailCall Transfer

text \<open>
  The world: the rows of the \<open>transfers\<close> table in insertion order, the user directory
  of the Auth Service, the wall clock as the sequence of its readings together with the
  number of readings taken so far, and the log of calls.
\<close>

record world =
  transfers :: "Transfer list"
  users :: "string \<rightharpoonup> User"
  clock :: "nat \<Rightarrow> Time"
  reads :: nat
  calls :: "event list"

text \<open>
  What goes wrong in the collaborators during one call of the service. The service
  calls each collaborator operation at most once per request, so one flag per
  operation is enough.
\<close>

record faults =
  find_fails :: bool
  list_fails :: bool
  create_fails :: bool
  update_fails :: bool
  get_transport_fails :: bool
  get_body_invalid :: bool
  put_transport_fails :: bool
  put_rejected :: bool

definition no_faults :: faults where
  "no_faults = \<lparr>find_fails = False, list_fails = False, create_fails = False,
     update_fails = False, get_transport_fails = False, get_body_invalid = False,
     put_transport_fails = False, put_rejected = False\<rparr>"

definition log_call :: "event \<Rightarrow> world \<Rightarrow> world" where
  "log_call e w = w\<lparr>calls := calls w @ [e]\<rparr>"

definition time_Now :: "world \<Rightarrow> Time \<times> world" where
  "time_Now w = (clock w (reads w), w\<lparr>reads := Suc (reads w)\<rparr>)"

text \<open>The reading the clock would give next: the present moment of a world.\<close>

definition now :: "world \<Rightarrow> Time" where
  "now w = clock w (reads w)"

section \<open>Repository (repositories/transfer\_repository.go)\<close>

text \<open>
  The table has \<open>id\<close> as its primary key and a unique index on \<open>token\<close> (the GORM tags of
  \<open>Transfer\<close>), so an insert of a row whose id or token is already there fails.
\<close>

definition Create :: "faults \<Rightarrow> world \<Rightarrow> Transfer \<Rightarrow> error option \<times> world" where
  "Create f w t =
     (let w1 = log_call (CreateCall t) w in
      if create_fails f \<or> list_ex (\<lambda>r. ID r = ID t \<or> Token r = Token t) (transfers w1)
      then (Some ErrDatabase, w1)
      else (None, w1\<lparr>transfers := transfers w1 @ [t]\<rparr>))"

text \<open>
  \<open>SELECT * FROM transfers WHERE sender_id = ? ORDER BY created_at DESC\<close>. Rows with
  the same creation time come out in insertion order here; SQL leaves their order open.
\<close>

definition FindBySenderID :: "faults \<Rightarrow> world \<Rightarrow> string \<Rightarrow> (error + Transfer list) \<times> world" where
  "FindBySenderID f w senderID =
     (let w1 = log_call (FindBySenderIDCall senderID) w in
      if list_fails f then (Inl ErrDatabase, w1)
      else (Inr (sort_key (\<lambda>t. - CreatedAt t)
                  (filter (\<lambda>t. SenderID t = senderID) (transfers w1))), w1))"

text \<open>
  \<open>r.db.Save(transfer)\<close>, that is \<open>UPDATE transfers SET ... WHERE id = ?\<close> with every
  column of the row overwritten. Before it runs the statement, GORM reads the clock and
  stamps the field \<open>UpdatedAt\<close> of the record with the reading; the row written is the
  stamped record. The log keeps the record as the caller handed it over.
\<close>

definition Update :: "faults \<Rightarrow> world \<Rightarrow> Transfer \<Rightarrow> error option \<times> world" where
  "Update f w t =
     (let w1 = log_call (UpdateCall t) w in
      case time_Now w1 of (stamp, w2) \<Rightarrow>
        (let t' = t\<lparr>UpdatedAt := stamp\<rparr> in
         if update_fails f then (Some ErrDatabase, w2)
         else (None, w2\<lparr>transfers := map (\<lambda>r. if ID r = ID t' then t' else r)
                                         (transfers w2)\<rparr>)))"

text \<open>\<open>SELECT * FROM transfers WHERE id = ? LIMIT 1\<close>.\<close>

definition FindByID :: "faults \<Rightarrow> world \<Rightarrow> string \<Rightarrow> (error + Transfer) \<times> world" where
  "FindByID f w transferID =
     (let w1 = log_call (FindByIDCall transferID) w in
      if find_fails f then (Inl ErrDatabase, w1)
      else case find (\<lambda>r. ID r = transferID) (transfers w1) of
             None \<Rightarrow> (Inl ErrRecordNotFound, w1)
           | Some t \<Rightarrow> (Inr t, w1))"

section \<open>Transfer service (services/transfer\_service.go)\<close>

text \<open>
  \<open>getUser\<close>: a GET on the Auth Service. The transport may fail; the service answers
  with a status other than 200 for a user it does not know; the body may fail to decode
  or report no success.
\<close>

definition getUser :: "faults \<Rightarrow> world \<Rightarrow> string \<Rightarrow> (error + User) \<times> world" where
  "getUser f w userID =
     (let w1 = log_call (GetUserCall userID) w in
      if get_transport_fails f then (Inl ErrTransport, w1)
      else case users w1 userID of
             None \<Rightarrow> (Inl (errors_New ''user not found''), w1)
           | Some u \<Rightarrow>
               if get_body_invalid f then (Inl (errors_New ''failed to get user data''), w1)
               else (Inr u, w1))"

text \<open>
  \<open>updateUserPoints\<close>: a PUT of the new absolute balance. When it fails, the Auth
  Service has not changed the balance.
\<close>

definition updateUserPoints :: "faults \<Rightarrow> world \<Rightarrow> string \<Rightarrow> int \<Rightarrow> error option \<times> world" where
  "updateUserPoints f w userID points =
     (let w1 = log_call (PutPointsCall userID points) w in
      if put_transport_fails f then (Some ErrTransport, w1)
      else case users w1 userID of
             None \<Rightarrow> (Some (errors_New ''failed to update points''), w1)
           | Some u \<Rightarrow>
               if put_rejected f then (Some (errors_New ''failed to update points''), w1)
               else (None, w1\<lparr>users := (users w1)(userID \<mapsto> u\<lparr>uPoints := points\<rparr>)\<rparr>))"

text \<open>\<open>fmt.Sprintf("%d", n)\<close>: the decimal digits of \<open>n\<close>, with a minus sign when negative.\<close>

fun dec_nat :: "nat \<Rightarrow> string" where
  "dec_nat n =
     (if n < 10 then [''0123456789'' ! n]
      else dec_nat (n div 10) @ [''0123456789'' ! (n mod 10)])"

declare dec_nat.simps [simp del]

definition fmt_d :: "int \<Rightarrow> string" where
  "fmt_d i = (if i < 0 then CHR ''-'' # dec_nat (nat (- i)) else dec_nat (nat i))"

definition generateID :: "world \<Rightarrow> string \<times> world" where
  "generateID w = (case time_Now w of (t, w1) \<Rightarrow> (''transfer_'' @ fmt_d t, w1))"

definition generateToken :: "world \<Rightarrow> string \<times> world" where
  "generateToken w = (case time_Now w of (t, w1) \<Rightarrow> (''token_'' @ fmt_d t, w1))"

definition validateTransfer :: "User \<Rightarrow> TransferRequest \<Rightarrow> error option" where
  "validateTransfer sender req =
     (if uPoints sender < reqPoints req then Some (errors_New ''insufficient points'')
      else if uEmail sender = reqReceiverEmail req
        then Some (errors_New ''cannot transfer points to yourself'')
      else if reqPoints req \<le> 0 then Some (errors_New ''points must be greater than zero'')
      else None)"

text \<open>
  \<open>InitiateTransfer\<close>. The fields of the composite literal are evaluated in the order
  they are written, so the clock is read five times: for the id, for the token, and
  for each of the three timestamps. The notification is handed to a goroutine; its
  dispatch is logged and its outcome is only printed.
\<close>

definition InitiateTransfer ::
  "faults \<Rightarrow> world \<Rightarrow> string \<Rightarrow> TransferRequest \<Rightarrow> (error + Transfer) \<times> world" where
  "InitiateTransfer f w senderID req =
     (case getUser f w senderID of
        (Inl e, w1) \<Rightarrow> (Inl (errors_New ''failed to get sender details''), w1)
      | (Inr sender, w1) \<Rightarrow>
          (case validateTransfer sender req of
             Some e \<Rightarrow> (Inl e, w1)
           | None \<Rightarrow>
               (case generateID w1 of (gid, w2) \<Rightarrow>
                case generateToken w2 of (tok, w3) \<Rightarrow>
                case time_Now w3 of (t3, w4) \<Rightarrow>
                case time_Now w4 of (t4, w5) \<Rightarrow>
                case time_Now w5 of (t5, w6) \<Rightarrow>
                  (let transfer = \<lparr>ID = gid, SenderID = senderID,
                         SenderEmail = uEmail sender,
                         ReceiverEmail = reqReceiverEmail req,
                         ReceiverName = reqReceiverName req,
                         Points = reqPoints req, Status = ''pending'', Token = tok,
                         ExpiresAt = t3 + 24 * Hour, CreatedAt = t4, UpdatedAt = t5\<rparr>
                   in case Create f w6 transfer of
                        (Some e, w7) \<Rightarrow> (Inl (errors_New ''failed to create transfer''), w7)
                      | (None, w7) \<Rightarrow> (Inr transfer, log_call (SendEmailCall transfer) w7)))))"

definition GetUserTransfers :: "faults \<Rightarrow> world \<Rightarrow> string \<Rightarrow> (error + Transfer list) \<times> world" where
  "GetUserTransfers f w userID = FindBySenderID f w userID"

definition CompleteTransfer :: "faults \<Rightarrow> world \<Rightarrow> string \<Rightarrow> error option \<times> world" where
  "CompleteTransfer f w transferID =
     (case FindByID f w transferID of
        (Inl e, w1) \<Rightarrow> (Some (errors_New ''transfer not found''), w1)
      | (Inr transfer, w1) \<Rightarrow>
          (case getUser f w1 (SenderID transfer) of
             (Inl e, w2) \<Rightarrow> (Some (errors_New ''failed to get sender details''), w2)
           | (Inr sender, w2) \<Rightarrow>
               if uPoints sender < Points transfer then
                 (case Update f w2 (transfer\<lparr>Status := ''failed''\<rparr>) of
                    (_, w3) \<Rightarrow> (Some (errors_New ''sender no longer has sufficient points''), w3))
               else
                 (case updateUserPoints f w2 (SenderID transfer)
                         (wrap64 (uPoints sender - Points transfer)) of
                    (Some e, w3) \<Rightarrow> (Some (errors_New ''failed to deduct points from sender''), w3)
                  | (None, w3) \<Rightarrow>
                      (case Update f w3 (transfer\<lparr>Status := ''completed''\<rparr>) of
                         (Some e, w4) \<Rightarrow> (Some (errors_New ''failed to complete transfer''), w4)
                       | (None, w4) \<Rightarrow> (None, w4)))))"

section \<open>HTTP handler for the transfer history (GetTransfers)\<close>

text \<open>
  What \<open>encoding/json\<close> produces. A struct is written field by field in the order
  of declaration, under the key of its \<open>json\<close> tag; a \<open>gin.H\<close> is a map and is written
  with its keys sorted.
\<close>

datatype json =
    JString string
  | JNumber int
  | JBool bool
  | JTime Time
  | JArray "json list"
  | JObject "(string \<times> json) list"

definition Transfer_json :: "Transfer \<Rightarrow> json" where
  "Transfer_json t = JObject
     [(''id'', JString (ID t)),
      (''sender_id'', JString (SenderID t)),
      (''sender_email'', JString (SenderEmail t)),
      (''receiver_email'', JString (ReceiverEmail t)),
      (''receiver_name'', JString (ReceiverName t)),
      (''points'', JNumber (Points t)),
      (''status'', JString (Status t)),
      (''token'', JString (Token t)),
      (''expires_at'', JTime (ExpiresAt t)),
      (''created_at'', JTime (CreatedAt t)),
      (''updated_at'', JTime (UpdatedAt t))]"

definition StatusOK :: nat where
  "StatusOK = 200"

definition StatusInternalServerError :: nat where
  "StatusInternalServerError = 500"

definition GetTransfers :: "faults \<Rightarrow> world \<Rightarrow> string \<Rightarrow> (nat \<times> json) \<times> world" where
  "GetTransfers f w userID =
     (case GetUserTransfers f w userID of
        (Inl e, w1) \<Rightarrow>
          ((StatusInternalServerError,
            JObject [(''error'', JString ''Failed to fetch transfers''),
                     (''success'', JBool False)]), w1)
      | (Inr ts, w1) \<Rightarrow>
          ((StatusOK,
            JObject [(''data'', JArray (map Transfer_json ts)),
                     (''success'', JBool True)]), w1))"

text \<open>The value of a key in a JSON object, for stating what a payload holds.\<close>

fun json_field :: "string \<Rightarrow> json \<Rightarrow> json option" where
  "json_field k (JObject kvs) = map_of kvs k"
| "json_field k _ = None"

section \<open>Observing a call\<close>

text \<open>The calls a step has added to the log, and the status a call carries to the store.\<close>

definition new_calls :: "world \<Rightarrow> world \<Rightarrow> event list" where
  "new_calls w w' = drop (length (calls w)) (calls w')"

fun status_written :: "event \<Rightarrow> string option" where
  "status_written (CreateCall t) = Some (Status t)"
| "status_written (UpdateCall t) = Some (Status t)"
| "status_written _ = None"

section \<open>Sequences of requests\<close>

text \<open>
  The three operations of the service as requests, and the world after a sequence of
  requests, each served under the faults that occur while it runs.
\<close>

datatype operation =
    Initiate string TransferRequest
  | Complete string
  | ListForSender string

fun step :: "faults \<times> operation \<Rightarrow> world \<Rightarrow> world" where
  "step (f, Initiate senderID req) w = snd (InitiateTransfer f w senderID req)"
| "step (f, Complete transferID) w = snd (CompleteTransfer f w transferID)"
| "step (f, ListForSender userID) w = snd (GetTransfers f w userID)"

fun run :: "(faults \<times> operation) list \<Rightarrow> world \<Rightarrow> world" where
  "run [] w = w"
| "run (x # xs) w = run xs (step x w)"

section \<open>Example worlds\<close>

definition alice :: User where
  "alice = \<lparr>uID = ''u1'', uEmail = ''alice@example.com'', uName = ''Alice'', uPoints = 200\<rparr>"

definition carol :: User where
  "carol = \<lparr>uID = ''u2'', uEmail = ''carol@example.com'', uName = ''Carol'', uPoints = 50\<rparr>"

definition offer :: Transfer where
  "offer = \<lparr>ID = ''transfer_1'', SenderID = ''u1'', SenderEmail = ''alice@example.com'',
     ReceiverEmail = ''bob@example.com'', ReceiverName = ''Bob'', Points = 60,
     Status = ''pending'', Token = ''token_2'', ExpiresAt = 3 + 24 * Hour,
     CreatedAt = 4, UpdatedAt = 5\<rparr>"

text \<open>
  One pending offer of 60 points by Alice, who holds 200; the clock stands at 100 ns
  and advances by one nanosecond per reading.
\<close>

definition world0 :: world where
  "world0 = \<lparr>transfers = [offer], users = [''u1'' \<mapsto> alice, ''u2'' \<mapsto> carol],
     clock = (\<lambda>n. 100 + int n), reads = 0, calls = []\<rparr>"

text \<open>The same world two days later: the offer's expiry has passed.\<close>

definition late_world :: world where
  "late_world = world0\<lparr>clock := (\<lambda>n. 48 * Hour + int n)\<rparr>"

text \<open>The same world after Alice has spent all but 40 of her points.\<close>

definition poor_world :: world where
  "poor_world = world0\<lparr>users := [''u1'' \<mapsto> alice\<lparr>uPoints := 40\<rparr>]\<rparr>"

text \<open>
  An empty table and a coarse clock: its first reading is 4 ns and every later one 5 ns.
\<close>

definition coarse_world :: world where
  "coarse_world = world0\<lparr>transfers := [], clock := (\<lambda>n. if n = 0 then 4 else 5)\<rparr>"

definition request2 :: TransferRequest where
  "request2 = \<lparr>reqReceiverEmail = ''dave@example.com'', reqReceiverName = ''Dave'', reqPoints = 10\<rparr>"

definition request :: TransferRequest where
  "request = \<lparr>reqReceiverEmail = ''bob@example.com'', reqReceiverName = ''Bob'', reqPoints = 60\<rparr>"

section \<open>Auxiliary facts\<close>

lemmas svc_defs = CompleteTransfer_def FindByID_def getUser_def Update_def
  updateUserPoints_def time_Now_def log_call_def Let_def

lemmas init_defs = InitiateTransfer_def getUser_def validateTransfer_def generateID_def
  generateToken_def time_Now_def Create_def log_call_def Let_def

lemmas list_defs = GetTransfers_def GetUserTransfers_def FindBySenderID_def log_call_def
  Let_def Transfer_json_def StatusOK_def StatusInternalServerError_def

lemmas ex_defs = world0_def late_world_def poor_world_def coarse_world_def offer_def
  alice_def carol_def request_def request2_def no_faults_def

lemmas eval_defs = ex_defs init_defs fmt_d_def dec_nat.simps Hour_def

lemma find_ID: "find (\<lambda>r. ID r = k) xs = Some t \<Longrightarrow> ID t = k"
  by (induction xs) (auto split: if_splits)

lemma find_overwrite:
  "find (\<lambda>r. ID r = k) xs = Some t \<Longrightarrow> ID t' = k \<Longrightarrow>
   find (\<lambda>r. ID r = k) (map (\<lambda>r. if ID r = k then t' else r) xs) = Some t'"
  by (induction xs) (auto split: if_splits)

lemma find_restamp:
  assumes "\<And>r. ID (g r) = ID r"
  shows "find (\<lambda>r. ID r = k) (map g xs) = map_option g (find (\<lambda>r. ID r = k) xs)"
  by (induction xs) (auto simp: assms)

lemma new_calls_append [simp]:
  "new_calls w (w'\<lparr>calls := calls w @ es\<rparr>) = es"
  by (simp add: new_calls_def)

subsection \<open>Completing a transfer, case by case\<close>

lemma Complete_not_found:
  assumes "find_fails f \<or> find (\<lambda>r. ID r = tid) (transfers w) = None"
  shows "CompleteTransfer f w tid =
     (Some (errors_New ''transfer not found''), w\<lparr>calls := calls w @ [FindByIDCall tid]\<rparr>)"
  using assms by (auto simp add: svc_defs)

lemma Complete_no_sender:
  assumes "\<not> find_fails f" "find (\<lambda>r. ID r = tid) (transfers w) = Some t"
    "get_transport_fails f \<or> get_body_invalid f \<or> users w (SenderID t) = None"
  shows "CompleteTransfer f w tid =
     (Some (errors_New ''failed to get sender details''),
      w\<lparr>calls := calls w @ [FindByIDCall tid, GetUserCall (SenderID t)]\<rparr>)"
  using assms by (auto simp add: svc_defs split: option.splits)

lemma Complete_insufficient:
  assumes "\<not> find_fails f" "find (\<lambda>r. ID r = tid) (transfers w) = Some t"
    "\<not> get_transport_fails f" "\<not> get_body_invalid f" "users w (SenderID t) = Some u"
    "uPoints u < Points t"
  shows "CompleteTransfer f w tid =
     (Some (errors_New ''sender no longer has sufficient points''),
      w\<lparr>transfers := (if update_fails f then transfers w
                       else map (\<lambda>r. if ID r = tid
                                       then t\<lparr>Status := ''failed'', UpdatedAt := now w\<rparr> else r)
                              (transfers w)),
        reads := Suc (reads w),
        calls := calls w @ [FindByIDCall tid, GetUserCall (SenderID t),
                            UpdateCall (t\<lparr>Status := ''failed''\<rparr>)]\<rparr>)"
  using assms find_ID[OF assms(2)] by (simp add: svc_defs now_def)

lemma Complete_put_fails:
  assumes "\<not> find_fails f" "find (\<lambda>r. ID r = tid) (transfers w) = Some t"
    "\<not> get_transport_fails f" "\<not> get_body_invalid f" "users w (SenderID t) = Some u"
    "\<not> uPoints u < Points t" "put_transport_fails f \<or> put_rejected f"
  shows "CompleteTransfer f w tid =
     (Some (errors_New ''failed to deduct points from sender''),
      w\<lparr>calls := calls w @ [FindByIDCall tid, GetUserCall (SenderID t),
           PutPointsCall (SenderID t) (wrap64 (uPoints u - Points t))]\<rparr>)"
  using assms by (auto simp add: svc_defs)

lemma Complete_debit:
  assumes "\<not> find_fails f" "find (\<lambda>r. ID r = tid) (transfers w) = Some t"
    "\<not> get_transport_fails f" "\<not> get_body_invalid f" "users w (SenderID t) = Some u"
    "\<not> uPoints u < Points t" "\<not> put_transport_fails f" "\<not> put_rejected f"
  shows "CompleteTransfer f w tid =
     ((if update_fails f then Some (errors_New ''failed to complete transfer'') else None),
      w\<lparr>transfers := (if update_fails f then transfers w
                       else map (\<lambda>r. if ID r = tid
                                       then t\<lparr>Status := ''completed'', UpdatedAt := now w\<rparr> else r)
                              (transfers w)),
        users := (users w)(SenderID t \<mapsto> u\<lparr>uPoints := wrap64 (uPoints u - Points t)\<rparr>),
        reads := Suc (reads w),
        calls := calls w @ [FindByIDCall tid, GetUserCall (SenderID t),
           PutPointsCall (SenderID t) (wrap64 (uPoints u - Points t)),
           UpdateCall (t\<lparr>Status := ''completed''\<rparr>)]\<rparr>)"
  using assms find_ID[OF assms(2)] by (simp add: svc_defs now_def)

lemma Complete_cases [case_names not_found no_sender insufficient put_fails debit]:
  assumes "find_fails f \<or> find (\<lambda>r. ID r = tid) (transfers w) = None \<Longrightarrow> P"
    and "\<And>t. \<not> find_fails f \<Longrightarrow> find (\<lambda>r. ID r = tid) (transfers w) = Some t \<Longrightarrow>
           get_transport_fails f \<or> get_body_invalid f \<or> users w (SenderID t) = None \<Longrightarrow> P"
    and "\<And>t u. \<not> find_fails f \<Longrightarrow> find (\<lambda>r. ID r = tid) (transfers w) = Some t \<Longrightarrow>
           \<not> get_transport_fails f \<Longrightarrow> \<not> get_body_invalid f \<Longrightarrow>
           users w (SenderID t) = Some u \<Longrightarrow> uPoints u < Points t \<Longrightarrow> P"
    and "\<And>t u. \<not> find_fails f \<Longrightarrow> find (\<lambda>r. ID r = tid) (transfers w) = Some t \<Longrightarrow>
           \<not> get_transport_fails f \<Longrightarrow> \<not> get_body_invalid f \<Longrightarrow>
           users w (SenderID t) = Some u \<Longrightarrow> \<not> uPoints u < Points t \<Longrightarrow>
           put_transport_fails f \<or> put_rejected f \<Longrightarrow> P"
    and "\<And>t u. \<not> find_fails f \<Longrightarrow> find (\<lambda>r. ID r = tid) (transfers w) = Some t \<Longrightarrow>
           \<not> get_transport_fails f \<Longrightarrow> \<not> get_body_invalid f \<Longrightarrow>
           users w (SenderID t) = Some u \<Longrightarrow> \<not> uPoints u < Points t \<Longrightarrow>
           \<not> put_transport_fails f \<Longrightarrow> \<not> put_rejected f \<Longrightarrow> P"
  shows P
proof (cases "find_fails f \<or> find (\<lambda>r. ID r = tid) (transfers w) = None")
  case True
  then show ?thesis by (rule assms(1))
next
  case False
  then obtain t where t: "\<not> find_fails f" "find (\<lambda>r. ID r = tid) (transfers w) = Some t"
    by auto
  show ?thesis
  proof (cases "get_transport_fails f \<or> get_body_invalid f \<or> users w (SenderID t) = None")
    case True
    then show ?thesis by (rule assms(2)[OF t])
  next
    case False
    then obtain u where u: "\<not> get_transport_fails f" "\<not> get_body_invalid f"
      "users w (SenderID t) = Some u" by auto
    show ?thesis
      using assms(3)[OF t u] assms(4)[OF t u] assms(5)[OF t u] by blast
  qed
qed

subsection \<open>Initiating a transfer, case by case\<close>

lemma Initiate_no_sender:
  assumes "get_transport_fails f \<or> get_body_invalid f \<or> users w sid = None"
  shows "InitiateTransfer f w sid req =
     (Inl (errors_New ''failed to get sender details''), w\<lparr>calls := calls w @ [GetUserCall sid]\<rparr>)"
  using assms by (auto simp add: init_defs split: option.splits)

lemma Initiate_invalid:
  assumes "\<not> get_transport_fails f" "\<not> get_body_invalid f" "users w sid = Some u"
    "validateTransfer u req = Some e"
  shows "InitiateTransfer f w sid req = (Inl e, w\<lparr>calls := calls w @ [GetUserCall sid]\<rparr>)"
  using assms by (simp add: InitiateTransfer_def getUser_def log_call_def Let_def)

lemma Initiate_valid:
  assumes "\<not> get_transport_fails f" "\<not> get_body_invalid f" "users w sid = Some u"
    "validateTransfer u req = None"
    and t: "t = \<lparr>ID = ''transfer_'' @ fmt_d (clock w (reads w)), SenderID = sid,
               SenderEmail = uEmail u, ReceiverEmail = reqReceiverEmail req,
               ReceiverName = reqReceiverName req, Points = reqPoints req,
               Status = ''pending'', Token = ''token_'' @ fmt_d (clock w (reads w + 1)),
               ExpiresAt = clock w (reads w + 2) + 24 * Hour,
               CreatedAt = clock w (reads w + 3), UpdatedAt = clock w (reads w + 4)\<rparr>"
  shows "InitiateTransfer f w sid req =
     (if create_fails f \<or> list_ex (\<lambda>r. ID r = ID t \<or> Token r = Token t) (transfers w)
      then (Inl (errors_New ''failed to create transfer''),
            w\<lparr>reads := reads w + 5, calls := calls w @ [GetUserCall sid, CreateCall t]\<rparr>)
      else (Inr t,
            w\<lparr>transfers := transfers w @ [t], reads := reads w + 5,
              calls := calls w @ [GetUserCall sid, CreateCall t, SendEmailCall t]\<rparr>))"
  using assms(1-4) unfolding t
  by (simp add: InitiateTransfer_def getUser_def generateID_def generateToken_def time_Now_def
      Create_def log_call_def Let_def eval_nat_numeral)

subsection \<open>The statuses each operation writes\<close>

lemma Initiate_statuses:
  "(\<forall>e\<in>set (new_calls w (snd (InitiateTransfer f w sid req))).
       status_written e = None \<or> status_written e = Some ''pending'')
   \<and> (\<forall>r\<in>set (transfers (snd (InitiateTransfer f w sid req))).
       r \<in> set (transfers w) \<or> Status r = ''pending'')"
proof (cases "get_transport_fails f \<or> get_body_invalid f \<or> users w sid = None")
  case True
  then show ?thesis by (simp add: Initiate_no_sender)
next
  case False
  then obtain u where r: "\<not> get_transport_fails f" "\<not> get_body_invalid f" "users w sid = Some u"
    by auto
  show ?thesis
  proof (cases "validateTransfer u req")
    case (Some e)
    then show ?thesis using r by (simp add: Initiate_invalid)
  next
    case None
    show ?thesis
      by (simp add: Initiate_valid[OF r None refl])
  qed
qed

lemma Complete_statuses:
  "(\<forall>e\<in>set (new_calls w (snd (CompleteTransfer f w tid))).
       status_written e = None \<or> status_written e = Some ''completed''
       \<or> status_written e = Some ''failed'')
   \<and> (\<forall>r\<in>set (transfers (snd (CompleteTransfer f w tid))).
       r \<in> set (transfers w) \<or> Status r = ''completed'' \<or> Status r = ''failed'')"
proof (cases rule: Complete_cases[of f tid w])
  case not_found
  then show ?thesis by (simp add: Complete_not_found)
next
  case (no_sender t)
  then show ?thesis by (simp add: Complete_no_sender)
next
  case (insufficient t u)
  then show ?thesis by (auto simp add: Complete_insufficient)
next
  case (put_fails t u)
  then show ?thesis by (simp add: Complete_put_fails)
next
  case (debit t u)
  then show ?thesis by (auto simp add: Complete_debit)
qed

lemma List_statuses:
  "(\<forall>e\<in>set (new_calls w (snd (GetUserTransfers f w sid))). status_written e = None)
   \<and> transfers (snd (GetUserTransfers f w sid)) = transfers w"
  by (simp add: GetUserTransfers_def FindBySenderID_def log_call_def Let_def)

subsection \<open>The keys of the table\<close>

lemma overwrite_absent:
  "k \<notin> ID ` set xs \<Longrightarrow> map (\<lambda>r. if ID r = k then t' else r) xs = xs"
  by (induction xs) auto

lemma overwrite_keeps_IDs:
  "ID t' = k \<Longrightarrow> map ID (map (\<lambda>r. if ID r = k then t' else r) xs) = map ID xs"
  by (induction xs) auto

lemma overwrite_keeps_Tokens:
  "distinct (map ID xs) \<Longrightarrow> find (\<lambda>r. ID r = k) xs = Some t \<Longrightarrow> Token t' = Token t \<Longrightarrow>
   map Token (map (\<lambda>r. if ID r = k then t' else r) xs) = map Token xs"
proof (induction xs)
  case Nil
  then show ?case by simp
next
  case (Cons x xs)
  show ?case
  proof (cases "ID x = k")
    case True
    then have "x = t" using Cons.prems(2) by simp
    moreover have "k \<notin> ID ` set xs" using Cons.prems(1) True by auto
    ultimately show ?thesis using True Cons.prems(3) by (simp add: overwrite_absent)
  next
    case False
    then show ?thesis using Cons by simp
  qed
qed

lemma Complete_keeps_keys:
  assumes "distinct (map ID (transfers w))"
  shows "map ID (transfers (snd (CompleteTransfer f w tid))) = map ID (transfers w)
       \<and> map Token (transfers (snd (CompleteTransfer f w tid))) = map Token (transfers w)"
proof (cases rule: Complete_cases[of f tid w])
  case not_found
  then show ?thesis by (simp add: Complete_not_found)
next
  case (no_sender t)
  then show ?thesis by (simp add: Complete_no_sender)
next
  case (insufficient t u)
  have "map Token (map (\<lambda>r. if ID r = tid then t\<lparr>Status := ''failed'', UpdatedAt := now w\<rparr>
                                else r) (transfers w)) = map Token (transfers w)"
    by (rule overwrite_keeps_Tokens[OF assms insufficient(2)]) simp
  moreover have "map ID (map (\<lambda>r. if ID r = tid then t\<lparr>Status := ''failed'', UpdatedAt := now w\<rparr>
                                else r) (transfers w)) = map ID (transfers w)"
    by (rule overwrite_keeps_IDs) (simp add: find_ID[OF insufficient(2)])
  ultimately show ?thesis
    using insufficient by (simp add: Complete_insufficient del: map_map)
next
  case (put_fails t u)
  then show ?thesis by (simp add: Complete_put_fails)
next
  case (debit t u)
  have "map Token (map (\<lambda>r. if ID r = tid then t\<lparr>Status := ''completed'', UpdatedAt := now w\<rparr>
                                else r) (transfers w)) = map Token (transfers w)"
    by (rule overwrite_keeps_Tokens[OF assms debit(2)]) simp
  moreover have "map ID (map (\<lambda>r. if ID r = tid then t\<lparr>Status := ''completed'', UpdatedAt := now w\<rparr>
                                else r) (transfers w)) = map ID (transfers w)"
    by (rule overwrite_keeps_IDs) (simp add: find_ID[OF debit(2)])
  ultimately show ?thesis
    using debit by (simp add: Complete_debit del: map_map)
qed

lemma Initiate_keeps_keys:
  assumes "distinct (map ID (transfers w))" and "distinct (map Token (transfers w))"
  shows "distinct (map ID (transfers (snd (InitiateTransfer f w sid req))))
       \<and> distinct (map Token (transfers (snd (InitiateTransfer f w sid req))))"
proof (cases "get_transport_fails f \<or> get_body_invalid f \<or> users w sid = None")
  case True
  then show ?thesis using assms by (simp add: Initiate_no_sender)
next
  case False
  then obtain u where r: "\<not> get_transport_fails f" "\<not> get_body_invalid f" "users w sid = Some u"
    by auto
  show ?thesis
  proof (cases "validateTransfer u req")
    case (Some e)
    then show ?thesis using r assms by (simp add: Initiate_invalid)
  next
    case None
    show ?thesis
      using assms by (auto simp add: Initiate_valid[OF r None refl] list_ex_iff)
  qed
qed

lemma Initiate_fresh_token:
  assumes "fst (InitiateTransfer f w sid req) = Inr t"
  shows "\<forall>r\<in>set (transfers w). Token r \<noteq> Token t"
proof (cases "get_transport_fails f \<or> get_body_invalid f \<or> users w sid = None")
  case True
  then show ?thesis using assms by (simp add: Initiate_no_sender)
next
  case False
  then obtain u where r: "\<not> get_transport_fails f" "\<not> get_body_invalid f" "users w sid = Some u"
    by auto
  show ?thesis
  proof (cases "validateTransfer u req")
    case (Some e)
    then show ?thesis using assms r by (simp add: Initiate_invalid)
  next
    case None
    show ?thesis
      using assms Initiate_valid[OF r None refl]
      by (auto simp add: list_ex_iff split: if_splits)
  qed
qed

lemma step_keeps_keys:
  assumes "distinct (map ID (transfers w))" and "distinct (map Token (transfers w))"
  shows "distinct (map ID (transfers (step x w)))
       \<and> distinct (map Token (transfers (step x w)))"
proof (cases x)
  case (Pair f op)
  show ?thesis
  proof (cases op)
    case (Initiate sid req)
    then show ?thesis using Pair assms Initiate_keeps_keys[of w f sid req] by simp
  next
    case (Complete tid)
    then show ?thesis using Pair assms Complete_keeps_keys[of w f tid] by simp
  next
    case (ListForSender sid)
    then show ?thesis using Pair assms
      by (simp add: GetTransfers_def GetUserTransfers_def FindBySenderID_def log_call_def Let_def)
  qed
qed

lemma run_keeps_keys:
  "distinct (map ID (transfers w)) \<Longrightarrow> distinct (map Token (transfers w)) \<Longrightarrow>
   distinct (map ID (transfers (run ops w))) \<and> distinct (map Token (transfers (run ops w)))"
proof (induction ops arbitrary: w)
  case Nil
  then show ?case by simp
next
  case (Cons x ops)
  then show ?case using step_keeps_keys[of w x] by simp
qed

section \<open>The claims\<close>

subsection \<open>C1: completing a record that is not pending\<close>

text \<open>
  C1 as stated: a Complete on a record whose status is not \<open>pending\<close> is rejected before
  any balance read or write, so that a record is debited at most once. The code has no
  such check. In \<open>world0\<close> Alice holds 200 points and offers 60: the first Complete
  succeeds and stores \<open>completed\<close>; the second Complete on the same, now completed,
  record (its updated timestamp stamped by the first) succeeds as well, reads the
  balance and writes it again, and leaves Alice with 80 points, two debits for one
  record.
\<close>

theorem CompleteTransfer_twice_counterexample:
  "fst (CompleteTransfer no_faults world0 ''transfer_1'') = None
   \<and> map Status (transfers (snd (CompleteTransfer no_faults world0 ''transfer_1'')))
       = [''completed'']
   \<and> fst (CompleteTransfer no_faults
             (snd (CompleteTransfer no_faults world0 ''transfer_1'')) ''transfer_1'') = None
   \<and> map_option uPoints (users (snd (CompleteTransfer no_faults
             (snd (CompleteTransfer no_faults world0 ''transfer_1'')) ''transfer_1'')) ''u1'')
       = Some 80
   \<and> calls (snd (CompleteTransfer no_faults
             (snd (CompleteTransfer no_faults world0 ''transfer_1'')) ''transfer_1''))
       = [FindByIDCall ''transfer_1'', GetUserCall ''u1'', PutPointsCall ''u1'' 140,
          UpdateCall (offer\<lparr>Status := ''completed''\<rparr>),
          FindByIDCall ''transfer_1'', GetUserCall ''u1'', PutPointsCall ''u1'' 80,
          UpdateCall (offer\<lparr>Status := ''completed'', UpdatedAt := 100\<rparr>)]"
  by (simp add: ex_defs svc_defs wrap64_def)

text \<open>
  C1 as amended: Complete never looks at the status of a record. Its result, the
  balances it leaves and the calls it makes are the same whatever the statuses of the
  stored records are; there is no rejection of a record that is not pending. For a
  record of any status, when the sender resolves with a balance not below the record's
  points and both the balance write and the store update succeed, Complete succeeds,
  writes balance minus points and stores the record with status \<open>completed\<close> and the
  updated timestamp of the present moment: the debit is applied once per successful
  call, not once per record.
\<close>

theorem CompleteTransfer_ignores_status:
  "fst (CompleteTransfer f (w\<lparr>transfers := map (\<lambda>r. r\<lparr>Status := st r\<rparr>) (transfers w)\<rparr>) tid)
     = fst (CompleteTransfer f w tid)
   \<and> users (snd (CompleteTransfer f
        (w\<lparr>transfers := map (\<lambda>r. r\<lparr>Status := st r\<rparr>) (transfers w)\<rparr>) tid))
     = users (snd (CompleteTransfer f w tid))
   \<and> calls (snd (CompleteTransfer f
        (w\<lparr>transfers := map (\<lambda>r. r\<lparr>Status := st r\<rparr>) (transfers w)\<rparr>) tid))
     = calls (snd (CompleteTransfer f w tid))
   \<and> (\<not> find_fails f \<and> find (\<lambda>r. ID r = tid) (transfers w) = Some t
        \<and> \<not> get_transport_fails f \<and> \<not> get_body_invalid f
        \<and> users w (SenderID t) = Some u \<and> \<not> uPoints u < Points t
        \<and> \<not> put_transport_fails f \<and> \<not> put_rejected f \<and> \<not> update_fails f
      \<longrightarrow> fst (CompleteTransfer f w tid) = None
        \<and> users (snd (CompleteTransfer f w tid)) (SenderID t)
             = Some (u\<lparr>uPoints := wrap64 (uPoints u - Points t)\<rparr>)
        \<and> new_calls w (snd (CompleteTransfer f w tid))
             = [FindByIDCall tid, GetUserCall (SenderID t),
                PutPointsCall (SenderID t) (wrap64 (uPoints u - Points t)),
                UpdateCall (t\<lparr>Status := ''completed''\<rparr>)]
        \<and> find (\<lambda>r. ID r = tid) (transfers (snd (CompleteTransfer f w tid)))
             = Some (t\<lparr>Status := ''completed'', UpdatedAt := now w\<rparr>))"
proof -
  have blind: "fst (CompleteTransfer f (w\<lparr>transfers := map (\<lambda>r. r\<lparr>Status := st r\<rparr>) (transfers w)\<rparr>) tid)
     = fst (CompleteTransfer f w tid)
   \<and> users (snd (CompleteTransfer f
        (w\<lparr>transfers := map (\<lambda>r. r\<lparr>Status := st r\<rparr>) (transfers w)\<rparr>) tid))
     = users (snd (CompleteTransfer f w tid))
   \<and> calls (snd (CompleteTransfer f
        (w\<lparr>transfers := map (\<lambda>r. r\<lparr>Status := st r\<rparr>) (transfers w)\<rparr>) tid))
     = calls (snd (CompleteTransfer f w tid))"
    by (simp add: svc_defs find_restamp split: option.splits)
  have again: "fst (CompleteTransfer f w tid) = None
        \<and> users (snd (CompleteTransfer f w tid)) (SenderID t)
             = Some (u\<lparr>uPoints := wrap64 (uPoints u - Points t)\<rparr>)
        \<and> new_calls w (snd (CompleteTransfer f w tid))
             = [FindByIDCall tid, GetUserCall (SenderID t),
                PutPointsCall (SenderID t) (wrap64 (uPoints u - Points t)),
                UpdateCall (t\<lparr>Status := ''completed''\<rparr>)]
        \<and> find (\<lambda>r. ID r = tid) (transfers (snd (CompleteTransfer f w tid)))
             = Some (t\<lparr>Status := ''completed'', UpdatedAt := now w\<rparr>)"
    if h: "\<not> find_fails f \<and> find (\<lambda>r. ID r = tid) (transfers w) = Some t
        \<and> \<not> get_transport_fails f \<and> \<not> get_body_invalid f
        \<and> users w (SenderID t) = Some u \<and> \<not> uPoints u < Points t
        \<and> \<not> put_transport_fails f \<and> \<not> put_rejected f \<and> \<not> update_fails f"
  proof -
    have idt: "ID t = tid" using h find_ID by blast
    have eq: "CompleteTransfer f w tid = (None,
      w\<lparr>transfers := map (\<lambda>r. if ID r = tid
                                then t\<lparr>Status := ''completed'', UpdatedAt := now w\<rparr> else r)
                         (transfers w),
        users := (users w)(SenderID t \<mapsto> u\<lparr>uPoints := wrap64 (uPoints u - Points t)\<rparr>),
        reads := Suc (reads w),
        calls := calls w @ [FindByIDCall tid, GetUserCall (SenderID t),
           PutPointsCall (SenderID t) (wrap64 (uPoints u - Points t)),
           UpdateCall (t\<lparr>Status := ''completed''\<rparr>)]\<rparr>)"
      using Complete_debit[of f tid w t u] h by simp
    show ?thesis using h idt by (simp add: eq find_overwrite new_calls_def)
  qed
  from blind again show ?thesis by blast
qed

theorem CompleteTransfer_ignores_status_witness:
  "fst (CompleteTransfer no_faults
          (world0\<lparr>transfers := [offer\<lparr>Status := ''completed''\<rparr>]\<rparr>) ''transfer_1'') = None
   \<and> map_option uPoints (users (snd (CompleteTransfer no_faults
          (world0\<lparr>transfers := [offer\<lparr>Status := ''completed''\<rparr>]\<rparr>) ''transfer_1'')) ''u1'')
       = Some 140"
  using CompleteTransfer_ignores_status [where f = no_faults
          and w = "world0\<lparr>transfers := [offer\<lparr>Status := ''completed''\<rparr>]\<rparr>"
          and st = "\<lambda>r. ''completed''" and tid = "''transfer_1''"
          and t = "offer\<lparr>Status := ''completed''\<rparr>" and u = alice]
  by (simp add: ex_defs wrap64_def)

subsection \<open>C2: completing after the expiry\<close>

text \<open>
  C2 as stated: a Complete on a pending record whose expiry has passed stores \<open>expired\<close>
  and leaves the balance alone. The code never compares the expiry with the clock. In
  \<open>late_world\<close> the offer expired a day ago: Complete succeeds, stores \<open>completed\<close>
  (with the updated timestamp of that moment) and debits Alice from 200 to 140.
\<close>

theorem CompleteTransfer_past_expiry_counterexample:
  "ExpiresAt offer < now late_world
   \<and> transfers late_world = [offer]
   \<and> fst (CompleteTransfer no_faults late_world ''transfer_1'') = None
   \<and> transfers (snd (CompleteTransfer no_faults late_world ''transfer_1''))
       = [offer\<lparr>Status := ''completed'', UpdatedAt := 48 * Hour\<rparr>]
   \<and> map_option uPoints (users late_world ''u1'') = Some 200
   \<and> map_option uPoints (users (snd (CompleteTransfer no_faults late_world ''transfer_1'')) ''u1'')
       = Some 140
   \<and> new_calls late_world (snd (CompleteTransfer no_faults late_world ''transfer_1''))
       = [FindByIDCall ''transfer_1'', GetUserCall ''u1'', PutPointsCall ''u1'' 140,
          UpdateCall (offer\<lparr>Status := ''completed''\<rparr>)]"
  by (simp add: ex_defs svc_defs now_def Hour_def wrap64_def new_calls_def)

text \<open>
  C2 as amended: for a pending record whose expiry has passed, Complete does what it
  does for any other record. It never compares the expiry with the clock: its result,
  the balances it leaves and the statuses it stores are the same whatever the expiry
  timestamps and the clock are (the clock is read by the store update alone, for the
  updated timestamp). The stored record differs from the one found in its status and
  its updated timestamp at most, and that status is \<open>pending\<close>, \<open>failed\<close> or
  \<open>completed\<close>, never \<open>expired\<close>; and when the sender resolves with a balance not
  below the points and the writes succeed, Complete succeeds, debits the sender and
  stores the record with status \<open>completed\<close> and the updated timestamp of the present
  moment.
\<close>

theorem CompleteTransfer_past_expiry:
  assumes "\<not> find_fails f" and "find (\<lambda>r. ID r = tid) (transfers w) = Some t"
    and "Status t = ''pending''" and "ExpiresAt t < now w"
  shows "(\<exists>t'. find (\<lambda>r. ID r = tid) (transfers (snd (CompleteTransfer f w tid))) = Some t'
              \<and> (Status t' = ''pending'' \<or> Status t' = ''failed'' \<or> Status t' = ''completed'')
              \<and> t'\<lparr>Status := ''pending'', UpdatedAt := UpdatedAt t\<rparr> = t)
       \<and> (\<not> get_transport_fails f \<and> \<not> get_body_invalid f
              \<and> users w (SenderID t) = Some u \<and> \<not> uPoints u < Points t
              \<and> \<not> put_transport_fails f \<and> \<not> put_rejected f \<and> \<not> update_fails f
            \<longrightarrow> fst (CompleteTransfer f w tid) = None
              \<and> users (snd (CompleteTransfer f w tid)) (SenderID t)
                  = Some (u\<lparr>uPoints := wrap64 (uPoints u - Points t)\<rparr>)
              \<and> find (\<lambda>r. ID r = tid) (transfers (snd (CompleteTransfer f w tid)))
                  = Some (t\<lparr>Status := ''completed'', UpdatedAt := now w\<rparr>))
       \<and> fst (CompleteTransfer f
               (w\<lparr>transfers := map (\<lambda>r. r\<lparr>ExpiresAt := ex r\<rparr>) (transfers w), clock := c\<rparr>) tid)
           = fst (CompleteTransfer f w tid)
       \<and> users (snd (CompleteTransfer f
               (w\<lparr>transfers := map (\<lambda>r. r\<lparr>ExpiresAt := ex r\<rparr>) (transfers w), clock := c\<rparr>) tid))
           = users (snd (CompleteTransfer f w tid))
       \<and> map Status (transfers (snd (CompleteTransfer f
               (w\<lparr>transfers := map (\<lambda>r. r\<lparr>ExpiresAt := ex r\<rparr>) (transfers w), clock := c\<rparr>) tid)))
           = map Status (transfers (snd (CompleteTransfer f w tid)))"
proof (intro conjI impI)
  have idt: "ID t = tid" by (rule find_ID[OF assms(2)])
  have self: "t\<lparr>Status := ''pending'', UpdatedAt := UpdatedAt t\<rparr> = t" using assms(3) by simp
  consider (nosender) "get_transport_fails f \<or> get_body_invalid f \<or> users w (SenderID t) = None"
    | (short) u where "\<not> get_transport_fails f" "\<not> get_body_invalid f"
        "users w (SenderID t) = Some u" "uPoints u < Points t"
    | (putfail) u where "\<not> get_transport_fails f" "\<not> get_body_invalid f"
        "users w (SenderID t) = Some u" "\<not> uPoints u < Points t"
        "put_transport_fails f \<or> put_rejected f"
    | (debit) u where "\<not> get_transport_fails f" "\<not> get_body_invalid f"
        "users w (SenderID t) = Some u" "\<not> uPoints u < Points t"
        "\<not> put_transport_fails f" "\<not> put_rejected f"
    by (cases "users w (SenderID t)") auto
  then show "\<exists>t'. find (\<lambda>r. ID r = tid) (transfers (snd (CompleteTransfer f w tid))) = Some t'
              \<and> (Status t' = ''pending'' \<or> Status t' = ''failed'' \<or> Status t' = ''completed'')
              \<and> t'\<lparr>Status := ''pending'', UpdatedAt := UpdatedAt t\<rparr> = t"
  proof cases
    case nosender
    then show ?thesis using assms self by (simp add: Complete_no_sender)
  next
    case short
    then show ?thesis using assms self idt
      by (cases "update_fails f") (simp_all add: Complete_insufficient find_overwrite)
  next
    case putfail
    then show ?thesis using assms self by (simp add: Complete_put_fails)
  next
    case debit
    then show ?thesis using assms self idt
      by (cases "update_fails f") (simp_all add: Complete_debit find_overwrite)
  qed
next
  assume h: "\<not> get_transport_fails f \<and> \<not> get_body_invalid f
              \<and> users w (SenderID t) = Some u \<and> \<not> uPoints u < Points t
              \<and> \<not> put_transport_fails f \<and> \<not> put_rejected f \<and> \<not> update_fails f"
  have idt: "ID t = tid" by (rule find_ID[OF assms(2)])
  have eq: "CompleteTransfer f w tid = (None,
      w\<lparr>transfers := map (\<lambda>r. if ID r = tid
                                then t\<lparr>Status := ''completed'', UpdatedAt := now w\<rparr> else r)
                         (transfers w),
        users := (users w)(SenderID t \<mapsto> u\<lparr>uPoints := wrap64 (uPoints u - Points t)\<rparr>),
        reads := Suc (reads w),
        calls := calls w @ [FindByIDCall tid, GetUserCall (SenderID t),
           PutPointsCall (SenderID t) (wrap64 (uPoints u - Points t)),
           UpdateCall (t\<lparr>Status := ''completed''\<rparr>)]\<rparr>)"
    using Complete_debit[OF assms(1,2), of u] h by simp
  show "fst (CompleteTransfer f w tid) = None" by (simp add: eq)
  show "users (snd (CompleteTransfer f w tid)) (SenderID t)
                  = Some (u\<lparr>uPoints := wrap64 (uPoints u - Points t)\<rparr>)" by (simp add: eq)
  show "find (\<lambda>r. ID r = tid) (transfers (snd (CompleteTransfer f w tid)))
                  = Some (t\<lparr>Status := ''completed'', UpdatedAt := now w\<rparr>)"
    using assms(2) idt by (simp add: eq find_overwrite)
next
  show "fst (CompleteTransfer f
               (w\<lparr>transfers := map (\<lambda>r. r\<lparr>ExpiresAt := ex r\<rparr>) (transfers w), clock := c\<rparr>) tid)
           = fst (CompleteTransfer f w tid)"
    by (simp add: svc_defs find_restamp split: option.splits)
next
  show "users (snd (CompleteTransfer f
               (w\<lparr>transfers := map (\<lambda>r. r\<lparr>ExpiresAt := ex r\<rparr>) (transfers w), clock := c\<rparr>) tid))
           = users (snd (CompleteTransfer f w tid))"
    by (simp add: svc_defs find_restamp split: option.splits)
next
  show "map Status (transfers (snd (CompleteTransfer f
               (w\<lparr>transfers := map (\<lambda>r. r\<lparr>ExpiresAt := ex r\<rparr>) (transfers w), clock := c\<rparr>) tid)))
           = map Status (transfers (snd (CompleteTransfer f w tid)))"
    by (simp add: svc_defs find_restamp split: option.splits)
qed

theorem CompleteTransfer_past_expiry_witness:
  "ExpiresAt offer < now late_world
   \<and> fst (CompleteTransfer no_faults late_world ''transfer_1'') = None
   \<and> map_option uPoints (users (snd (CompleteTransfer no_faults late_world ''transfer_1'')) ''u1'')
       = Some 140
   \<and> map Status (transfers (snd (CompleteTransfer no_faults late_world ''transfer_1'')))
       = [''completed'']"
  using CompleteTransfer_past_expiry [of no_faults "''transfer_1''" late_world offer alice]
  by (simp add: ex_defs svc_defs now_def Hour_def wrap64_def)

subsection \<open>C3: the transfer history of a sender\<close>

text \<open>
  C3 as stated: the payload of the history never includes the claim token. The handler
  serialises the records as they are, and \<open>Transfer\<close> carries the tag \<open>json:"token"\<close>:
  the payload for Alice in \<open>world0\<close> holds the token of her offer.
\<close>

theorem GetTransfers_token_counterexample:
  "fst (GetTransfers no_faults world0 ''u1'')
     = (200, JObject
         [(''data'', JArray [JObject
            [(''id'', JString ''transfer_1''),
             (''sender_id'', JString ''u1''),
             (''sender_email'', JString ''alice@example.com''),
             (''receiver_email'', JString ''bob@example.com''),
             (''receiver_name'', JString ''Bob''),
             (''points'', JNumber 60),
             (''status'', JString ''pending''),
             (''token'', JString ''token_2''),
             (''expires_at'', JTime (3 + 24 * Hour)),
             (''created_at'', JTime 4),
             (''updated_at'', JTime 5)]]),
          (''success'', JBool True)])"
  by (simp add: ex_defs list_defs)

text \<open>
  C3 as amended: for every sender identifier, the history is exactly the stored records
  whose sender identifier equals the argument (each as often as it is stored), ordered
  newest first by creation time, and the payload holds every field of every such
  record, its claim token included, under the key \<open>token\<close>. When the query fails the
  database error is returned.
\<close>

theorem GetTransfers_records_and_payload:
  "(list_fails f \<longrightarrow> fst (GetUserTransfers f w sid) = Inl ErrDatabase)
   \<and> (\<not> list_fails f \<longrightarrow>
        (\<exists>rs. fst (GetUserTransfers f w sid) = Inr rs
           \<and> mset rs = mset (filter (\<lambda>t. SenderID t = sid) (transfers w))
           \<and> sorted_wrt (\<lambda>a b. CreatedAt b \<le> CreatedAt a) rs
           \<and> fst (GetTransfers f w sid)
               = (StatusOK, JObject [(''data'', JArray (map Transfer_json rs)),
                                      (''success'', JBool True)])
           \<and> (\<forall>r\<in>set rs. json_field ''token'' (Transfer_json r) = Some (JString (Token r)))))"
proof (intro conjI impI)
  assume "list_fails f"
  then show "fst (GetUserTransfers f w sid) = Inl ErrDatabase"
    by (simp add: GetUserTransfers_def FindBySenderID_def Let_def)
next
  assume ok: "\<not> list_fails f"
  define rs where "rs = sort_key (\<lambda>t. - CreatedAt t) (filter (\<lambda>t. SenderID t = sid) (transfers w))"
  have r: "fst (GetUserTransfers f w sid) = Inr rs"
    using ok by (simp add: GetUserTransfers_def FindBySenderID_def Let_def log_call_def rs_def)
  have m: "mset rs = mset (filter (\<lambda>t. SenderID t = sid) (transfers w))"
    by (simp add: rs_def)
  have "sorted (map (\<lambda>t. - CreatedAt t) rs)"
    by (simp add: rs_def)
  then have s: "sorted_wrt (\<lambda>a b. CreatedAt b \<le> CreatedAt a) rs"
    by (simp add: sorted_map)
  have p: "fst (GetTransfers f w sid)
      = (StatusOK, JObject [(''data'', JArray (map Transfer_json rs)), (''success'', JBool True)])"
    using ok by (simp add: GetTransfers_def GetUserTransfers_def FindBySenderID_def Let_def
        log_call_def rs_def)
  have k: "\<forall>r\<in>set rs. json_field ''token'' (Transfer_json r) = Some (JString (Token r))"
    by (simp add: Transfer_json_def)
  from r m s p k show "\<exists>rs. fst (GetUserTransfers f w sid) = Inr rs
           \<and> mset rs = mset (filter (\<lambda>t. SenderID t = sid) (transfers w))
           \<and> sorted_wrt (\<lambda>a b. CreatedAt b \<le> CreatedAt a) rs
           \<and> fst (GetTransfers f w sid)
               = (StatusOK, JObject [(''data'', JArray (map Transfer_json rs)),
                                      (''success'', JBool True)])
           \<and> (\<forall>r\<in>set rs. json_field ''token'' (Transfer_json r) = Some (JString (Token r)))"
    by blast
qed

theorem GetTransfers_records_and_payload_witness:
  "fst (GetUserTransfers no_faults
          (world0\<lparr>transfers := [offer, offer\<lparr>ID := ''transfer_7'', Token := ''token_8'', CreatedAt := 9\<rparr>,
                                  offer\<lparr>ID := ''transfer_6'', SenderID := ''u2''\<rparr>]\<rparr>) ''u1'')
     = Inr [offer\<lparr>ID := ''transfer_7'', Token := ''token_8'', CreatedAt := 9\<rparr>, offer]
   \<and> fst (GetUserTransfers (no_faults\<lparr>list_fails := True\<rparr>) world0 ''u1'') = Inl ErrDatabase"
  using GetTransfers_records_and_payload [of "no_faults\<lparr>list_fails := True\<rparr>" world0 "''u1''"]
    GetTransfers_records_and_payload [of no_faults
       "world0\<lparr>transfers := [offer, offer\<lparr>ID := ''transfer_7'', Token := ''token_8'', CreatedAt := 9\<rparr>,
                                  offer\<lparr>ID := ''transfer_6'', SenderID := ''u2''\<rparr>]\<rparr>" "''u1''"]
  by (simp add: ex_defs list_defs)

subsection \<open>C4: the balance write fails\<close>

text \<open>
  C4. In a call of Complete in which the record is found, pending and unexpired, the
  sender resolves with a balance not below the record's points, and the write of the
  reduced balance fails (the transport fails or the Auth Service rejects it), Complete
  returns the error of a failed deduction, the table and the balances are as before,
  and the stored record is still \<open>pending\<close>.
\<close>

theorem CompleteTransfer_balance_write_fails:
  assumes "\<not> find_fails f" and "find (\<lambda>r. ID r = tid) (transfers w) = Some t"
    and "\<not> get_transport_fails f" and "\<not> get_body_invalid f"
    and "users w (SenderID t) = Some u"
    and "Status t = ''pending''" and "now w < ExpiresAt t"
    and "\<not> uPoints u < Points t"
    and "put_transport_fails f \<or> put_rejected f"
  shows "fst (CompleteTransfer f w tid) = Some (errors_New ''failed to deduct points from sender'')
       \<and> transfers (snd (CompleteTransfer f w tid)) = transfers w
       \<and> users (snd (CompleteTransfer f w tid)) = users w
       \<and> map_option Status (find (\<lambda>r. ID r = tid) (transfers (snd (CompleteTransfer f w tid))))
           = Some ''pending''"
  using assms by (simp add: Complete_put_fails)

theorem CompleteTransfer_balance_write_fails_witness:
  "fst (CompleteTransfer (no_faults\<lparr>put_rejected := True\<rparr>) world0 ''transfer_1'')
     = Some (errors_New ''failed to deduct points from sender'')
   \<and> transfers (snd (CompleteTransfer (no_faults\<lparr>put_rejected := True\<rparr>) world0 ''transfer_1''))
     = [offer]"
  using CompleteTransfer_balance_write_fails
    [of "no_faults\<lparr>put_rejected := True\<rparr>" "''transfer_1''" world0 offer alice]
  by (simp add: ex_defs now_def Hour_def)

subsection \<open>C5: the balance has dropped below the points\<close>

text \<open>
  C5 as stated: in every Complete call in which the balance is below the points, the
  status \<open>failed\<close> is persisted. The code hands the record to the store's Update and
  drops its result. Alice holds no points and the update fails: Complete returns the
  error of insufficient points and the stored record is still the pending offer.
\<close>

theorem CompleteTransfer_insufficient_balance_counterexample:
  "map_option uPoints (users (world0\<lparr>users := [''u1'' \<mapsto> alice\<lparr>uPoints := 0\<rparr>]\<rparr>) ''u1'') = Some 0
   \<and> Points offer = 60
   \<and> fst (CompleteTransfer (no_faults\<lparr>update_fails := True\<rparr>)
            (world0\<lparr>users := [''u1'' \<mapsto> alice\<lparr>uPoints := 0\<rparr>]\<rparr>) ''transfer_1'')
       = Some (errors_New ''sender no longer has sufficient points'')
   \<and> transfers (snd (CompleteTransfer (no_faults\<lparr>update_fails := True\<rparr>)
            (world0\<lparr>users := [''u1'' \<mapsto> alice\<lparr>uPoints := 0\<rparr>]\<rparr>) ''transfer_1''))
       = [offer]
   \<and> Status offer = ''pending''"
  by (simp add: ex_defs svc_defs)

text \<open>
  C5 as amended: in a call of Complete in which the record is found and the sender
  resolves with a balance strictly below the record's points, Complete sets the status
  to \<open>failed\<close> and hands the record to the store's Update, returns the error of
  insufficient points, and issues no balance write: the calls it makes are the lookup,
  the balance read and the Update, and the balances are as before. When the Update goes
  through, the stored record is the one found with status \<open>failed\<close> and the updated
  timestamp set to the present moment.
\<close>

theorem CompleteTransfer_insufficient_balance:
  assumes "\<not> find_fails f" and "find (\<lambda>r. ID r = tid) (transfers w) = Some t"
    and "\<not> get_transport_fails f" and "\<not> get_body_invalid f"
    and "users w (SenderID t) = Some u"
    and "uPoints u < Points t"
  shows "fst (CompleteTransfer f w tid)
           = Some (errors_New ''sender no longer has sufficient points'')
       \<and> users (snd (CompleteTransfer f w tid)) = users w
       \<and> calls (snd (CompleteTransfer f w tid))
           = calls w @ [FindByIDCall tid, GetUserCall (SenderID t),
                        UpdateCall (t\<lparr>Status := ''failed''\<rparr>)]
       \<and> (\<not> update_fails f \<longrightarrow>
            find (\<lambda>r. ID r = tid) (transfers (snd (CompleteTransfer f w tid)))
              = Some (t\<lparr>Status := ''failed'', UpdatedAt := now w\<rparr>))"
  using assms find_ID[OF assms(2)]
  by (simp add: Complete_insufficient find_overwrite)

theorem CompleteTransfer_insufficient_balance_witness:
  "fst (CompleteTransfer no_faults poor_world ''transfer_1'')
     = Some (errors_New ''sender no longer has sufficient points'')
   \<and> map_option uPoints (users (snd (CompleteTransfer no_faults poor_world ''transfer_1'')) ''u1'')
     = Some 40
   \<and> find (\<lambda>r. ID r = ''transfer_1'')
        (transfers (snd (CompleteTransfer no_faults poor_world ''transfer_1'')))
     = Some (offer\<lparr>Status := ''failed'', UpdatedAt := 100\<rparr>)"
  using CompleteTransfer_insufficient_balance
    [of no_faults "''transfer_1''" poor_world offer "alice\<lparr>uPoints := 40\<rparr>"]
  by (simp add: ex_defs now_def)

subsection \<open>C6: the order of the checks of Initiate\<close>

text \<open>
  C6 as stated: after the sender has resolved, the amount is checked first, then the
  self-transfer, then the balance. The code checks in another order. Alice holds 200
  points: a request of 0 points to her own address violates the amount and the
  self-transfer rule and is answered with the self-transfer error, not the amount error;
  a request of 500 points to her own address violates the self-transfer rule and the
  balance and is answered with the insufficient-points error, not the self-transfer
  error.
\<close>

theorem InitiateTransfer_check_order_counterexample:
  "fst (InitiateTransfer no_faults world0 ''u1''
         \<lparr>reqReceiverEmail = ''alice@example.com'', reqReceiverName = ''Alice'', reqPoints = 0\<rparr>)
     = Inl (errors_New ''cannot transfer points to yourself'')
   \<and> fst (InitiateTransfer no_faults world0 ''u1''
         \<lparr>reqReceiverEmail = ''alice@example.com'', reqReceiverName = ''Alice'', reqPoints = 500\<rparr>)
     = Inl (errors_New ''insufficient points'')"
  by (simp add: eval_defs)

text \<open>
  C6 as amended: for every Initiate call the checks are made in this order, the first
  failure winning: (1) the sender resolves through the Auth Service, else
  "failed to get sender details"; (2) the sender's live balance is not below the points,
  else "insufficient points"; (3) the receiver's address differs from the sender's by
  exact, case-sensitive comparison, else "cannot transfer points to yourself"; (4) the
  points are greater than zero, else "points must be greater than zero". A request that
  passes all four yields a record or the error of a failed creation. In particular a
  request that violates the amount and the self-transfer rule with a sufficient balance
  yields the self-transfer error, and one that violates the self-transfer rule and the
  balance yields the insufficient-points error.
\<close>

theorem InitiateTransfer_check_order:
  "(get_transport_fails f \<or> get_body_invalid f \<or> users w sid = None \<longrightarrow>
      fst (InitiateTransfer f w sid req) = Inl (errors_New ''failed to get sender details''))
   \<and> (\<not> get_transport_fails f \<and> \<not> get_body_invalid f \<and> users w sid = Some u \<longrightarrow>
      (uPoints u < reqPoints req \<longrightarrow>
         fst (InitiateTransfer f w sid req) = Inl (errors_New ''insufficient points''))
    \<and> (reqPoints req \<le> uPoints u \<and> uEmail u = reqReceiverEmail req \<longrightarrow>
         fst (InitiateTransfer f w sid req)
           = Inl (errors_New ''cannot transfer points to yourself''))
    \<and> (reqPoints req \<le> uPoints u \<and> uEmail u \<noteq> reqReceiverEmail req \<and> reqPoints req \<le> 0 \<longrightarrow>
         fst (InitiateTransfer f w sid req)
           = Inl (errors_New ''points must be greater than zero''))
    \<and> (reqPoints req \<le> uPoints u \<and> uEmail u \<noteq> reqReceiverEmail req \<and> 0 < reqPoints req \<longrightarrow>
         fst (InitiateTransfer f w sid req) = Inl (errors_New ''failed to create transfer'')
         \<or> (\<exists>t. fst (InitiateTransfer f w sid req) = Inr t)))"
proof (intro conjI impI)
  assume "get_transport_fails f \<or> get_body_invalid f \<or> users w sid = None"
  then show "fst (InitiateTransfer f w sid req) = Inl (errors_New ''failed to get sender details'')"
    by (simp add: Initiate_no_sender)
next
  assume r: "\<not> get_transport_fails f \<and> \<not> get_body_invalid f \<and> users w sid = Some u"
    and "uPoints u < reqPoints req"
  then have "validateTransfer u req = Some (errors_New ''insufficient points'')"
    by (simp add: validateTransfer_def)
  with r show "fst (InitiateTransfer f w sid req) = Inl (errors_New ''insufficient points'')"
    by (simp add: Initiate_invalid)
next
  assume r: "\<not> get_transport_fails f \<and> \<not> get_body_invalid f \<and> users w sid = Some u"
    and "reqPoints req \<le> uPoints u \<and> uEmail u = reqReceiverEmail req"
  then have "validateTransfer u req = Some (errors_New ''cannot transfer points to yourself'')"
    by (simp add: validateTransfer_def)
  with r show "fst (InitiateTransfer f w sid req)
      = Inl (errors_New ''cannot transfer points to yourself'')"
    by (simp add: Initiate_invalid)
next
  assume r: "\<not> get_transport_fails f \<and> \<not> get_body_invalid f \<and> users w sid = Some u"
    and "reqPoints req \<le> uPoints u \<and> uEmail u \<noteq> reqReceiverEmail req \<and> reqPoints req \<le> 0"
  then have "validateTransfer u req = Some (errors_New ''points must be greater than zero'')"
    by (simp add: validateTransfer_def)
  with r show "fst (InitiateTransfer f w sid req)
      = Inl (errors_New ''points must be greater than zero'')"
    by (simp add: Initiate_invalid)
next
  assume r: "\<not> get_transport_fails f \<and> \<not> get_body_invalid f \<and> users w sid = Some u"
    and "reqPoints req \<le> uPoints u \<and> uEmail u \<noteq> reqReceiverEmail req \<and> 0 < reqPoints req"
  then have "validateTransfer u req = None"
    by (simp add: validateTransfer_def)
  with r show "fst (InitiateTransfer f w sid req) = Inl (errors_New ''failed to create transfer'')
         \<or> (\<exists>t. fst (InitiateTransfer f w sid req) = Inr t)"
    by (simp add: Initiate_valid)
qed

theorem InitiateTransfer_check_order_witness:
  "fst (InitiateTransfer no_faults world0 ''u2''
         \<lparr>reqReceiverEmail = ''carol@example.com'', reqReceiverName = ''Carol'', reqPoints = - 5\<rparr>)
     = Inl (errors_New ''cannot transfer points to yourself'')
   \<and> fst (InitiateTransfer no_faults world0 ''u2''
         \<lparr>reqReceiverEmail = ''bob@example.com'', reqReceiverName = ''Bob'', reqPoints = - 5\<rparr>)
     = Inl (errors_New ''points must be greater than zero'')
   \<and> fst (InitiateTransfer no_faults world0 ''u3'' request)
     = Inl (errors_New ''failed to get sender details'')"
  using InitiateTransfer_check_order [of no_faults world0 "''u2''"
           "\<lparr>reqReceiverEmail = ''carol@example.com'', reqReceiverName = ''Carol'', reqPoints = - 5\<rparr>"
           carol]
        InitiateTransfer_check_order [of no_faults world0 "''u2''"
           "\<lparr>reqReceiverEmail = ''bob@example.com'', reqReceiverName = ''Bob'', reqPoints = - 5\<rparr>"
           carol]
        InitiateTransfer_check_order [of no_faults world0 "''u3''" request carol]
  by (simp add: ex_defs)

subsection \<open>C7: the record of a successful Initiate\<close>

text \<open>
  C7 as stated: the expiry of the record equals its creation timestamp plus exactly 24
  hours. The code reads the clock once for the expiry and once more for the creation
  timestamp. In \<open>world0\<close> the clock advances by a nanosecond per reading: the expiry is
  the reading 102 plus 24 hours, the creation timestamp is the reading 103.
\<close>

theorem InitiateTransfer_expiry_counterexample:
  "fst (InitiateTransfer no_faults world0 ''u1'' request)
     = Inr \<lparr>ID = ''transfer_100'', SenderID = ''u1'', SenderEmail = ''alice@example.com'',
            ReceiverEmail = ''bob@example.com'', ReceiverName = ''Bob'', Points = 60,
            Status = ''pending'', Token = ''token_101'', ExpiresAt = 102 + 24 * Hour,
            CreatedAt = 103, UpdatedAt = 104\<rparr>
   \<and> (102 + 24 * Hour \<noteq> 103 + 24 * Hour)"
  by (simp add: eval_defs)

text \<open>
  C7 as amended: for every Initiate call that succeeds, the returned record has status
  \<open>pending\<close> and is the row appended to the table; its expiry is the third clock reading
  of the call plus exactly 24 hours and its creation timestamp is the fourth reading,
  so that the expiry is the creation timestamp plus 24 hours less the time the clock
  advanced between the two readings (exactly 24 hours when the two readings coincide).
\<close>

theorem InitiateTransfer_success_record:
  assumes "fst (InitiateTransfer f w sid req) = Inr t"
  shows "Status t = ''pending''
       \<and> transfers (snd (InitiateTransfer f w sid req)) = transfers w @ [t]
       \<and> ExpiresAt t = clock w (reads w + 2) + 24 * Hour
       \<and> CreatedAt t = clock w (reads w + 3)
       \<and> ExpiresAt t = CreatedAt t + 24 * Hour - (clock w (reads w + 3) - clock w (reads w + 2))"
proof (cases "get_transport_fails f \<or> get_body_invalid f \<or> users w sid = None")
  case True
  then show ?thesis using assms by (simp add: Initiate_no_sender)
next
  case False
  then obtain u where r: "\<not> get_transport_fails f" "\<not> get_body_invalid f" "users w sid = Some u"
    by auto
  show ?thesis
  proof (cases "validateTransfer u req")
    case (Some e)
    then show ?thesis using assms r by (simp add: Initiate_invalid)
  next
    case None
    show ?thesis
      using assms Initiate_valid[OF r None refl]
      by (auto split: if_splits)
  qed
qed

theorem InitiateTransfer_success_record_witness:
  "fst (InitiateTransfer no_faults late_world ''u1'' request)
     = Inr \<lparr>ID = ''transfer_172800000000000'', SenderID = ''u1'',
            SenderEmail = ''alice@example.com'',
            ReceiverEmail = ''bob@example.com'', ReceiverName = ''Bob'', Points = 60,
            Status = ''pending'', Token = ''token_172800000000001'',
            ExpiresAt = 72 * Hour + 2, CreatedAt = 48 * Hour + 3, UpdatedAt = 48 * Hour + 4\<rparr>
   \<and> length (transfers (snd (InitiateTransfer no_faults late_world ''u1'' request))) = 2"
proof -
  have e: "fst (InitiateTransfer no_faults late_world ''u1'' request)
     = Inr \<lparr>ID = ''transfer_172800000000000'', SenderID = ''u1'',
            SenderEmail = ''alice@example.com'',
            ReceiverEmail = ''bob@example.com'', ReceiverName = ''Bob'', Points = 60,
            Status = ''pending'', Token = ''token_172800000000001'',
            ExpiresAt = 72 * Hour + 2, CreatedAt = 48 * Hour + 3, UpdatedAt = 48 * Hour + 4\<rparr>"
    by (simp add: eval_defs)
  from InitiateTransfer_success_record[OF e] e show ?thesis
    by (simp add: ex_defs)
qed

subsection \<open>C8: the uniqueness of claim tokens\<close>

text \<open>
  \<open>generateToken\<close> is a function of the clock reading alone, so two calls at the same
  instant build the same token; the table's unique index on \<open>token\<close> then refuses the
  second record. In \<open>coarse_world\<close> the clock gives 4 and then 5 for every later
  reading: Alice's Initiate creates a record with token \<open>token_5\<close>; Carol's Initiate
  right after it builds a record with another id and the same token, the insert fails,
  her call returns "failed to create transfer", and no second record exists.
\<close>

lemma Initiate_same_instant:
  "fst (InitiateTransfer no_faults coarse_world ''u1'' request)
     = Inr \<lparr>ID = ''transfer_4'', SenderID = ''u1'', SenderEmail = ''alice@example.com'',
            ReceiverEmail = ''bob@example.com'', ReceiverName = ''Bob'', Points = 60,
            Status = ''pending'', Token = ''token_5'', ExpiresAt = 5 + 24 * Hour,
            CreatedAt = 5, UpdatedAt = 5\<rparr>
   \<and> fst (InitiateTransfer no_faults
            (snd (InitiateTransfer no_faults coarse_world ''u1'' request)) ''u2'' request2)
     = Inl (errors_New ''failed to create transfer'')
   \<and> map Token (transfers (snd (InitiateTransfer no_faults
            (snd (InitiateTransfer no_faults coarse_world ''u1'' request)) ''u2'' request2)))
     = [''token_5'']"
  by (simp add: eval_defs)

text \<open>
  C8. Starting from a table whose ids and tokens are pairwise distinct (the empty table
  for one), after every sequence of Initiate, Complete and ListForSender requests, under
  any faults and any clock, the claim tokens of the stored records are pairwise distinct;
  and the token of a record that Initiate creates differs from the token of every record
  stored before. This holds also when two requests read the same instant from the
  clock: the second of them creates no record.
\<close>

theorem claim_tokens_pairwise_distinct:
  assumes "distinct (map ID (transfers w))" and "distinct (map Token (transfers w))"
  shows "distinct (map Token (transfers (run ops w)))
       \<and> (fst (InitiateTransfer f w sid req) = Inr t \<longrightarrow>
            (\<forall>r\<in>set (transfers w). Token r \<noteq> Token t))"
  using run_keeps_keys[OF assms] Initiate_fresh_token[of f w sid req t] by blast

theorem claim_tokens_pairwise_distinct_witness:
  "map Token (transfers (run [(no_faults, Initiate ''u1'' request),
                               (no_faults, Complete ''transfer_1''),
                               (no_faults, Initiate ''u2'' request2)] world0))
     = [''token_2'', ''token_101'', ''token_107'']
   \<and> distinct (map Token (transfers (run [(no_faults, Initiate ''u1'' request),
                               (no_faults, Complete ''transfer_1''),
                               (no_faults, Initiate ''u2'' request2)] world0)))"
proof -
  have tokens: "map Token (transfers (run [(no_faults, Initiate ''u1'' request),
                               (no_faults, Complete ''transfer_1''),
                               (no_faults, Initiate ''u2'' request2)] world0))
     = [''token_2'', ''token_101'', ''token_107'']"
    by (simp add: eval_defs CompleteTransfer_def FindByID_def Update_def updateUserPoints_def
        wrap64_def)
  have ids: "distinct (map ID (transfers world0))" by (simp add: ex_defs)
  have toks: "distinct (map Token (transfers world0))" by (simp add: ex_defs)
  from claim_tokens_pairwise_distinct[OF ids toks] tokens show ?thesis by blast
qed

subsection \<open>C9: the store update of the failed status fails\<close>

text \<open>
  C9. In a call of Complete in which the record is found, the sender resolves with a
  balance below the record's points, and the store update that carries the status
  \<open>failed\<close> fails, the error of the update is dropped: Complete still returns the
  error of insufficient points, its last call was that update, and the table is as
  before, so the stored record keeps the status it had (\<open>pending\<close> for a pending one).
\<close>

theorem CompleteTransfer_failed_status_not_stored:
  assumes "\<not> find_fails f" and "find (\<lambda>r. ID r = tid) (transfers w) = Some t"
    and "\<not> get_transport_fails f" and "\<not> get_body_invalid f"
    and "users w (SenderID t) = Some u"
    and "uPoints u < Points t"
    and "update_fails f"
  shows "fst (CompleteTransfer f w tid)
           = Some (errors_New ''sender no longer has sufficient points'')
       \<and> last (calls (snd (CompleteTransfer f w tid))) = UpdateCall (t\<lparr>Status := ''failed''\<rparr>)
       \<and> transfers (snd (CompleteTransfer f w tid)) = transfers w
       \<and> find (\<lambda>r. ID r = tid) (transfers (snd (CompleteTransfer f w tid))) = Some t"
  using assms by (simp add: Complete_insufficient)

theorem CompleteTransfer_failed_status_not_stored_witness:
  "fst (CompleteTransfer (no_faults\<lparr>update_fails := True\<rparr>) poor_world ''transfer_1'')
     = Some (errors_New ''sender no longer has sufficient points'')
   \<and> map Status (transfers (snd (CompleteTransfer (no_faults\<lparr>update_fails := True\<rparr>)
        poor_world ''transfer_1''))) = [''pending'']"
  using CompleteTransfer_failed_status_not_stored
    [of "no_faults\<lparr>update_fails := True\<rparr>" "''transfer_1''" poor_world offer
        "alice\<lparr>uPoints := 40\<rparr>"]
  by (simp add: ex_defs)

subsection \<open>C10: the statuses the service writes\<close>

text \<open>
  C10. Every record that Initiate hands to the store carries the status \<open>pending\<close>,
  every record that Complete hands to the store carries \<open>completed\<close> or \<open>failed\<close>, and
  the history writes nothing. Every row of the table after an operation is a row that
  was there before or carries one of these statuses: no operation writes \<open>expired\<close> or
  \<open>cancelled\<close>.
\<close>

theorem only_pending_completed_failed_written:
  "(\<forall>e\<in>set (new_calls w (snd (InitiateTransfer f w sid req))).
       status_written e = None \<or> status_written e = Some ''pending'')
   \<and> (\<forall>r\<in>set (transfers (snd (InitiateTransfer f w sid req))).
       r \<in> set (transfers w) \<or> Status r = ''pending'')
   \<and> (\<forall>e\<in>set (new_calls w (snd (CompleteTransfer f w tid))).
       status_written e = None \<or> status_written e = Some ''completed''
       \<or> status_written e = Some ''failed'')
   \<and> (\<forall>r\<in>set (transfers (snd (CompleteTransfer f w tid))).
       r \<in> set (transfers w) \<or> Status r = ''completed'' \<or> Status r = ''failed'')
   \<and> (\<forall>e\<in>set (new_calls w (snd (GetUserTransfers f w sid))). status_written e = None)
   \<and> transfers (snd (GetUserTransfers f w sid)) = transfers w"
  using Initiate_statuses[of w f sid req] Complete_statuses[of w f tid] List_statuses[of w f sid]
  by blast

theorem only_pending_completed_failed_written_witness:
  "map status_written (new_calls world0 (snd (InitiateTransfer no_faults world0 ''u1'' request)))
     = [None, Some ''pending'', None]
   \<and> map status_written (new_calls poor_world (snd (CompleteTransfer no_faults poor_world ''transfer_1'')))
     = [None, None, Some ''failed'']
   \<and> map status_written (new_calls world0 (snd (CompleteTransfer no_faults world0 ''transfer_1'')))
     = [None, None, None, Some ''completed'']"
  using only_pending_completed_failed_written [of world0 no_faults "''u1''" request "''transfer_1''"]
    only_pending_completed_failed_written [of poor_world no_faults "''u1''" request "''transfer_1''"]
  by (simp add: eval_defs CompleteTransfer_def FindByID_def Update_def updateUserPoints_def
      new_calls_def)

end
